theory Spec2Isabelle
  imports Complex_Main "HOL-Library.Char_ord" "HOL-Library.List_Lexorder"
begin

section \<open>Data model\<close>

text \<open>
  The picks sheet is read with \<^verbatim>\<open>get_all_values\<close>, so every cell is a string. A data row
  under the header \<^verbatim>\<open>User, Week, Date, Game, Pick, Winner\<close> is a record of six strings, and a
  DataFrame of picks is the list of its rows in row order.
\<close>

record pick_row =
  User :: string
  Week :: string
  Date :: string
  Game :: string
  Pick :: string
  Winner :: string

text \<open>
  The remote worksheet \<^verbatim>\<open>picks_sheet\<close> is the only mutable state of the helpers. It is
  passed explicitly: \<open>cells\<close> holds the data rows, \<open>updates\<close> counts the calls of
  \<^verbatim>\<open>picks_sheet.update\<close> made so far, so that "no write happened" can be told from
  "the same table was written again".
\<close>

record picks_store =
  cells :: "pick_row list"
  updates :: nat

definition load_picks :: "picks_store \<Rightarrow> pick_row list" where
  "load_picks st = cells st"

text \<open>
  \<^verbatim>\<open>picks_sheet.update([df.columns.tolist()] + df.values.tolist())\<close>: both callers write a
  table that has at least as many rows as the one they loaded, so the write replaces every
  data row of the sheet.
\<close>

definition sheet_update :: "pick_row list \<Rightarrow> picks_store \<Rightarrow> picks_store" where
  "sheet_update df st = st\<lparr>cells := df, updates := Suc (updates st)\<rparr>"

section \<open>Pick manager and result recorder\<close>

text \<open>
  The boolean mask \<^verbatim>\<open>(df["User"]==user) & (df["Week"]==week) & (df["Game"]==game)\<close> of
  \<^verbatim>\<open>save_pick\<close>, as a predicate on rows.
\<close>

definition exists_mask :: "string \<Rightarrow> string \<Rightarrow> string \<Rightarrow> pick_row \<Rightarrow> bool" where
  "exists_mask user week game r \<longleftrightarrow> User r = user \<and> Week r = week \<and> Game r = game"

definition save_pick ::
  "string \<Rightarrow> string \<Rightarrow> string \<Rightarrow> string \<Rightarrow> string \<Rightarrow> picks_store \<Rightarrow> picks_store" where
  "save_pick user week date game pick st =
     (let df = load_picks st;
          df' = (if list_ex (exists_mask user week game) df
                 then map (\<lambda>r. if exists_mask user week game r then r\<lparr>Pick := pick\<rparr> else r) df
                 else df @ [\<lparr>User = user, Week = week, Date = date, Game = game,
                             Pick = pick, Winner = ''''\<rparr>])
      in sheet_update df' st)"

definition save_winner :: "string \<Rightarrow> string \<Rightarrow> picks_store \<Rightarrow> picks_store" where
  "save_winner game winner st =
     (let df = load_picks st;
          df' = map (\<lambda>r. if Game r = game then r\<lparr>Winner := winner\<rparr> else r) df
      in sheet_update df' st)"

section \<open>Schedule and week resolver\<close>

text \<open>
  A calendar date (\<^verbatim>\<open>datetime.date\<close>) is represented by its proleptic Gregorian ordinal,
  the value of \<^verbatim>\<open>date.toordinal()\<close>: comparison of dates is comparison of ordinals and
  \<^verbatim>\<open>d + timedelta(days=7)\<close> is \<open>d + 7\<close>. \<open>date_ordinal\<close> is the standard library's
  conversion from year, month and day; it is used to write the example dates only.
\<close>

type_synonym date = int

definition is_leap :: "int \<Rightarrow> bool" where
  "is_leap y \<longleftrightarrow> y mod 4 = 0 \<and> (y mod 100 \<noteq> 0 \<or> y mod 400 = 0)"

definition days_before_year :: "int \<Rightarrow> int" where
  "days_before_year y = (y - 1) * 365 + (y - 1) div 4 - (y - 1) div 100 + (y - 1) div 400"

definition days_before_month :: "int \<Rightarrow> nat \<Rightarrow> int" where
  "days_before_month y m =
     [0, 31, 59, 90, 120, 151, 181, 212, 243, 273, 304, 334] ! (m - 1) +
     (if 2 < m \<and> is_leap y then 1 else 0)"

definition date_ordinal :: "int \<Rightarrow> nat \<Rightarrow> int \<Rightarrow> date" where
  "date_ordinal y m d = days_before_year y + days_before_month y m + d"

text \<open>
  A schedule row after line 93 of the script: \<open>WeekStartDate\<close> holds the result of
  \<^verbatim>\<open>pd.to_datetime(..., errors="coerce").dt.date\<close>, which is a date, or \<open>None\<close> for the
  null value \<^verbatim>\<open>NaT\<close> that an unparseable cell is coerced to. The other cells are strings.
\<close>

record schedule_row =
  sched_Week :: string
  WeekStartDate :: "date option"
  sched_Date :: string
  sched_Game :: string
  Home :: string
  Away :: string

datatype error = IndexError | TypeError

text \<open>
  \<^verbatim>\<open>schedule_df[schedule_df["WeekStartDate"] <= today]\<close>: the comparison is false on a
  null value, so such rows are dropped.
\<close>

definition past_weeks :: "date \<Rightarrow> schedule_row list \<Rightarrow> schedule_row list" where
  "past_weeks today schedule_df =
     filter (\<lambda>r. case WeekStartDate r of None \<Rightarrow> False | Some d \<Rightarrow> d \<le> today) schedule_df"

text \<open>\<^verbatim>\<open>Series.max()\<close> skips null values; on no value at all it is itself null.\<close>

definition series_max :: "date option list \<Rightarrow> date option" where
  "series_max col =
     (case List.map_filter id col of [] \<Rightarrow> None | d # ds \<Rightarrow> Some (fold max ds d))"

definition no_active_week :: string where
  "no_active_week = ''No active week found. Add a new week in the schedule.''"

text \<open>
  Lines 96 to 105. The result is the value of \<^verbatim>\<open>current_week\<close> with the \<^verbatim>\<open>st.info\<close>
  messages shown, or the exception that \<^verbatim>\<open>.iloc[0]\<close> raises on an empty selection.
\<close>

definition current_week :: "date \<Rightarrow> schedule_row list \<Rightarrow> error + string \<times> string list" where
  "current_week today schedule_df =
     (let past = past_weeks today schedule_df in
      if past \<noteq> [] then
        (let current_week_start = series_max (map WeekStartDate past);
             current_week_row =
               filter (\<lambda>r. current_week_start \<noteq> None \<and> WeekStartDate r = current_week_start)
                 schedule_df
         in case current_week_row of
              [] \<Rightarrow> Inl IndexError
            | r # _ \<Rightarrow> Inr (sched_Week r, []))
      else Inr (''TBD'', [no_active_week]))"

text \<open>Line 108: \<^verbatim>\<open>schedule_df[schedule_df["Week"] == current_week]\<close>.\<close>

definition week_schedule :: "string \<Rightarrow> schedule_row list \<Rightarrow> schedule_row list" where
  "week_schedule cw schedule_df = filter (\<lambda>r. sched_Week r = cw) schedule_df"

text \<open>
  Lines 111 to 118. \<^verbatim>\<open>week_start\<close> is the \<open>WeekStartDate\<close> of the first row of the week's
  schedule. When that cell is null, \<^verbatim>\<open>today < NaT + timedelta(days=7)\<close> compares a date with
  \<^verbatim>\<open>NaT\<close>, which pandas 2 rejects with a \<^verbatim>\<open>TypeError\<close> (pandas 1 warned and answered
  false); no claim below depends on that branch.
\<close>

definition week_status :: "date \<Rightarrow> schedule_row list \<Rightarrow> error + string" where
  "week_status today wsched =
     (case wsched of
        [] \<Rightarrow> Inr ''Open''
      | r # _ \<Rightarrow>
          (case WeekStartDate r of
             None \<Rightarrow> Inl TypeError
           | Some week_start \<Rightarrow>
               Inr (if today < week_start + 7 then ''Open'' else ''Closed'')))"

text \<open>
  Lines 96 to 120 in sequence: the current week, its schedule, its status and the messages
  shown on the way.
\<close>

definition resolve_week ::
  "date \<Rightarrow> schedule_row list \<Rightarrow> error + string \<times> schedule_row list \<times> string \<times> string list" where
  "resolve_week today schedule_df =
     (case current_week today schedule_df of
        Inl e \<Rightarrow> Inl e
      | Inr (cw, msgs) \<Rightarrow>
          (case week_status today (week_schedule cw schedule_df) of
             Inl e \<Rightarrow> Inl e
           | Inr status \<Rightarrow> Inr (cw, week_schedule cw schedule_df, status, msgs)))"

section \<open>Winner selection in the page\<close>

text \<open>\<^verbatim>\<open>Series.unique()\<close>: the distinct values in order of first appearance.\<close>

fun unique :: "'a list \<Rightarrow> 'a list" where
  "unique [] = []"
| "unique (x # xs) = x # unique (filter (\<lambda>y. y \<noteq> x) xs)"

text \<open>
  Lines 152 and 153. The cells are strings, so \<^verbatim>\<open>dropna()\<close> removes nothing.
\<close>

definition current_winner :: "string \<Rightarrow> pick_row list \<Rightarrow> string" where
  "current_winner game df_all =
     (case unique (map Winner (filter (\<lambda>r. Game r = game) df_all)) of
        [] \<Rightarrow> ''''
      | w # _ \<Rightarrow> w)"

text \<open>
  Lines 155 to 159 for one game: \<open>winner\<close> is the value the select box returns, \<open>df_all\<close>
  the table loaded at the start of the page run.
\<close>

definition record_winner ::
  "string \<Rightarrow> string \<Rightarrow> pick_row list \<Rightarrow> picks_store \<Rightarrow> picks_store" where
  "record_winner game winner df_all st =
     (if winner \<noteq> current_winner game df_all \<and> winner \<noteq> ''''
      then save_winner game winner st else st)"

section \<open>Statistics\<close>














section \<open>Uniqueness of rows\<close>

definition key_of :: "pick_row \<Rightarrow> string \<times> string \<times> string" where
  "key_of r = (User r, Week r, Game r)"

definition unique_rows :: "pick_row list \<Rightarrow> bool" where
  "unique_rows df \<longleftrightarrow> distinct (map key_of df)"

section \<open>Example tables\<close>

text \<open>Two weeks that both contain a game literally named \<open>Game1\<close>.\<close>

definition two_weeks_store :: picks_store where
  "two_weeks_store =
     \<lparr>cells =
        [\<lparr>User = ''Em'', Week = ''1'', Date = ''2024-01-08'', Game = ''Game1'',
          Pick = ''Bruins'', Winner = ''''\<rparr>,
         \<lparr>User = ''Ma'', Week = ''2'', Date = ''2024-01-15'', Game = ''Game1'',
          Pick = ''Leafs'', Winner = ''''\<rparr>,
         \<lparr>User = ''Ma'', Week = ''2'', Date = ''2024-01-16'', Game = ''Game2'',
          Pick = ''Oilers'', Winner = ''Flames''\<rparr>],
      updates = 0\<rparr>"

text \<open>A sheet in which the same (User, Week, Game) was entered twice.\<close>

definition duplicate_store :: picks_store where
  "duplicate_store =
     \<lparr>cells =
        [\<lparr>User = ''Em'', Week = ''1'', Date = ''2024-01-08'', Game = ''Game1'',
          Pick = ''Bruins'', Winner = ''''\<rparr>,
         \<lparr>User = ''Em'', Week = ''1'', Date = ''2024-01-08'', Game = ''Game1'',
          Pick = ''Bruins'', Winner = ''''\<rparr>],
      updates = 0\<rparr>"

text \<open>The schedule with the week starts 2024-01-07, 2024-01-14 and 2024-01-21.\<close>

definition three_weeks :: "schedule_row list" where
  "three_weeks =
     [\<lparr>sched_Week = ''1'', WeekStartDate = Some (date_ordinal 2024 1 7),
       sched_Date = ''2024-01-08'', sched_Game = ''Bruins @ Leafs'',
       Home = ''Leafs'', Away = ''Bruins''\<rparr>,
      \<lparr>sched_Week = ''2'', WeekStartDate = Some (date_ordinal 2024 1 14),
       sched_Date = ''2024-01-15'', sched_Game = ''Oilers @ Flames'',
       Home = ''Flames'', Away = ''Oilers''\<rparr>,
      \<lparr>sched_Week = ''3'', WeekStartDate = Some (date_ordinal 2024 1 21),
       sched_Date = ''2024-01-22'', sched_Game = ''Jets @ Wild'',
       Home = ''Wild'', Away = ''Jets''\<rparr>]"

text \<open>A schedule whose only week has not started yet and is named \<open>TBD\<close>.\<close>

definition tbd_schedule :: "schedule_row list" where
  "tbd_schedule =
     [\<lparr>sched_Week = ''TBD'', WeekStartDate = Some (date_ordinal 2024 1 21),
       sched_Date = ''2024-01-22'', sched_Game = ''Jets @ Wild'',
       Home = ''Wild'', Away = ''Jets''\<rparr>]"





section \<open>Basic facts about the two writers\<close>

lemma load_sheet_update: "load_picks (sheet_update df st) = df"
  by (simp add: load_picks_def sheet_update_def)

lemma load_save_winner:
  "load_picks (save_winner game winner st) =
     map (\<lambda>r. if Game r = game then r\<lparr>Winner := winner\<rparr> else r) (load_picks st)"
  by (simp add: save_winner_def Let_def load_sheet_update)

lemma load_save_pick_found:
  "list_ex (exists_mask user week game) (load_picks st) \<Longrightarrow>
   load_picks (save_pick user week date game pick st) =
     map (\<lambda>r. if exists_mask user week game r then r\<lparr>Pick := pick\<rparr> else r) (load_picks st)"
  by (simp add: save_pick_def Let_def load_sheet_update)

lemma load_save_pick_new:
  "\<not> list_ex (exists_mask user week game) (load_picks st) \<Longrightarrow>
   load_picks (save_pick user week date game pick st) =
     load_picks st @ [\<lparr>User = user, Week = week, Date = date, Game = game,
                       Pick = pick, Winner = ''''\<rparr>]"
  by (simp add: save_pick_def Let_def load_sheet_update)

section \<open>Keys and the upsert\<close>

lemma exists_mask_key: "exists_mask u w g r \<longleftrightarrow> key_of r = (u, w, g)"
  by (auto simp: exists_mask_def key_of_def)

lemma filter_key_le_1:
  "distinct (map f xs) \<Longrightarrow> length (filter (\<lambda>x. f x = k) xs) \<le> 1"
  by (induction xs) (auto simp: filter_empty_conv image_iff)

lemma distinct_map_if_filter_le_1:
  "(\<And>k. length (filter (\<lambda>x. f x = k) xs) \<le> 1) \<Longrightarrow> distinct (map f xs)"
proof (induction xs)
  case Nil
  then show ?case by simp
next
  case (Cons a xs)
  have tl: "length (filter (\<lambda>x. f x = k) xs) \<le> 1" for k
    using Cons.prems [of k] by (simp split: if_splits)
  have "f a \<notin> f ` set xs"
  proof
    assume "f a \<in> f ` set xs"
    then have "filter (\<lambda>x. f x = f a) xs \<noteq> []"
      by (auto simp: filter_empty_conv)
    then have "0 < length (filter (\<lambda>x. f x = f a) xs)" by simp
    with Cons.prems [of "f a"] show False by simp
  qed
  with Cons.IH tl show ?case by simp
qed

text \<open>
  \<open>unique_rows\<close> is the invariant of the data model: at most one row for each
  (User, Week, Game).
\<close>

lemma unique_rows_iff:
  "unique_rows df \<longleftrightarrow> (\<forall>u w g. length (filter (exists_mask u w g) df) \<le> 1)"
proof
  assume "unique_rows df"
  then show "\<forall>u w g. length (filter (exists_mask u w g) df) \<le> 1"
    unfolding unique_rows_def exists_mask_key by (blast intro: filter_key_le_1)
next
  assume a: "\<forall>u w g. length (filter (exists_mask u w g) df) \<le> 1"
  have "length (filter (\<lambda>x. key_of x = k) df) \<le> 1" for k
    using a by (cases k) (simp add: exists_mask_key [symmetric])
  then show "unique_rows df"
    unfolding unique_rows_def by (rule distinct_map_if_filter_le_1)
qed

lemma key_of_Pick_update [simp]: "key_of (r\<lparr>Pick := p\<rparr>) = key_of r"
  by (simp add: key_of_def)

lemma key_of_Winner_update [simp]: "key_of (r\<lparr>Winner := p\<rparr>) = key_of r"
  by (simp add: key_of_def)

lemma exists_mask_Pick_update [simp]:
  "exists_mask u w g (r\<lparr>Pick := p\<rparr>) = exists_mask u w g r"
  by (simp add: exists_mask_def)

lemma map_key_set_Pick:
  "map key_of (map (\<lambda>r. if P r then r\<lparr>Pick := p\<rparr> else r) df) = map key_of df"
  by (induction df) auto

lemma map_key_set_Winner:
  "map key_of (map (\<lambda>r. if P r then r\<lparr>Winner := p\<rparr> else r) df) = map key_of df"
  by (induction df) auto

lemma filter_mask_set_Pick:
  "filter (exists_mask u w g) (map (\<lambda>r. if exists_mask u w g r then r\<lparr>Pick := p\<rparr> else r) df)
     = map (\<lambda>r. r\<lparr>Pick := p\<rparr>) (filter (exists_mask u w g) df)"
  by (induction df) auto

lemma exists_mask_new_row:
  "exists_mask u w g \<lparr>User = u, Week = w, Date = d, Game = g, Pick = p, Winner = x\<rparr>"
  by (simp add: exists_mask_def)

lemma filter_mask_save_pick:
  "filter (exists_mask u w g) (load_picks (save_pick u w d g p st)) =
     (if list_ex (exists_mask u w g) (load_picks st)
      then map (\<lambda>r. r\<lparr>Pick := p\<rparr>) (filter (exists_mask u w g) (load_picks st))
      else [\<lparr>User = u, Week = w, Date = d, Game = g, Pick = p, Winner = ''''\<rparr>])"
proof (cases "list_ex (exists_mask u w g) (load_picks st)")
  case True
  then show ?thesis
    by (simp add: load_save_pick_found filter_mask_set_Pick)
next
  case False
  then have "filter (exists_mask u w g) (load_picks st) = []"
    by (simp add: list_ex_iff filter_empty_conv)
  with False show ?thesis
    by (simp add: load_save_pick_new exists_mask_new_row)
qed

lemma list_ex_save_pick:
  "list_ex (exists_mask u w g) (load_picks (save_pick u w d g p st))"
proof -
  have "filter (exists_mask u w g) (load_picks (save_pick u w d g p st)) \<noteq> []"
    by (auto simp: filter_mask_save_pick list_ex_iff filter_empty_conv)
  then show ?thesis by (auto simp: list_ex_iff filter_empty_conv)
qed

section \<open>Facts about the week resolver\<close>

lemma in_past_weeks:
  "r \<in> set (past_weeks today s) \<longleftrightarrow>
     r \<in> set s \<and> (\<exists>d. WeekStartDate r = Some d \<and> d \<le> today)"
  by (auto simp: past_weeks_def split: option.splits)

lemma series_max_Some:
  assumes "Some d0 \<in> set col"
  shows "\<exists>m. series_max col = Some m \<and> Some m \<in> set col \<and> (\<forall>d. Some d \<in> set col \<longrightarrow> d \<le> m)"
proof -
  let ?ds = "List.map_filter id col"
  have S: "set ?ds = {d. Some d \<in> set col}"
    by (induction col) (auto split: option.splits)
  with assms have ne: "?ds \<noteq> []" by auto
  then obtain d ds where ds: "?ds = d # ds" by (cases ?ds) auto
  have "fold max ds d = Max (set (d # ds))"
    by (rule Max.set_eq_fold [symmetric])
  then have m: "series_max col = Some (Max (set ?ds))"
    by (simp add: series_max_def ds)
  have "Max (set ?ds) \<in> set ?ds" using ne by (intro Max_in) auto
  moreover have "\<forall>x \<in> set ?ds. x \<le> Max (set ?ds)" by simp
  ultimately show ?thesis using m S by auto
qed

lemma current_week_found:
  assumes "\<exists>r \<in> set sched. \<exists>d. WeekStartDate r = Some d \<and> d \<le> today"
  shows "\<exists>r \<in> set sched. \<exists>d. current_week today sched = Inr (sched_Week r, []) \<and>
           WeekStartDate r = Some d \<and> d \<le> today \<and>
           (\<forall>r' \<in> set sched. \<forall>d'. WeekStartDate r' = Some d' \<and> d' \<le> today \<longrightarrow> d' \<le> d)"
proof -
  let ?past = "past_weeks today sched"
  from assms obtain r0 d0 where r0: "r0 \<in> set ?past" "WeekStartDate r0 = Some d0"
    by (auto simp: in_past_weeks)
  then have ne: "?past \<noteq> []" by auto
  from r0 have "Some d0 \<in> set (map WeekStartDate ?past)" by force
  from series_max_Some [OF this] obtain m where
    m: "series_max (map WeekStartDate ?past) = Some m"
       "Some m \<in> set (map WeekStartDate ?past)"
       "\<forall>d. Some d \<in> set (map WeekStartDate ?past) \<longrightarrow> d \<le> m"
    by blast
  from m(2) obtain r1 where r1: "r1 \<in> set sched" "WeekStartDate r1 = Some m" "m \<le> today"
    by (auto simp: in_past_weeks)
  let ?row = "filter (\<lambda>r. WeekStartDate r = Some m) sched"
  from r1 have "?row \<noteq> []" by (auto simp: filter_empty_conv)
  then obtain r rs where row: "?row = r # rs" by (cases ?row) auto
  then have "r \<in> set ?row" by simp
  then have r: "r \<in> set sched" "WeekStartDate r = Some m" by auto
  have cw: "current_week today sched = Inr (sched_Week r, [])"
    using ne m(1) row by (simp add: current_week_def Let_def)
  have "\<forall>r' \<in> set sched. \<forall>d'. WeekStartDate r' = Some d' \<and> d' \<le> today \<longrightarrow> d' \<le> m"
  proof (intro ballI allI impI)
    fix r' d' assume "r' \<in> set sched" "WeekStartDate r' = Some d' \<and> d' \<le> today"
    then have "r' \<in> set ?past" "WeekStartDate r' = Some d'" by (auto simp: in_past_weeks)
    then have "Some d' \<in> set (map WeekStartDate ?past)" by force
    with m(3) show "d' \<le> m" by blast
  qed
  with r cw r1(3) show ?thesis by blast
qed

lemma current_week_none:
  assumes "\<not> (\<exists>r \<in> set sched. \<exists>d. WeekStartDate r = Some d \<and> d \<le> today)"
  shows "current_week today sched = Inr (''TBD'', [no_active_week])"
proof -
  have "past_weeks today sched = []"
    using assms by (auto simp: past_weeks_def filter_empty_conv split: option.splits)
  then show ?thesis by (simp add: current_week_def)
qed

text \<open>
  In the example schedule the resolver moves on to the third week on 2024-01-21, the day
  on which the status rule closes the second.
\<close>

lemma resolver_moves_on:
  "resolve_week (date_ordinal 2024 1 21) three_weeks =
     Inr (''3'', [three_weeks ! 2], ''Open'', [])"
  by (simp add: three_weeks_def date_ordinal_def days_before_year_def days_before_month_def
      is_leap_def current_week_def past_weeks_def series_max_def Let_def resolve_week_def
      week_schedule_def week_status_def)

section \<open>Facts about rounding, means and leaderboards\<close>














section \<open>Facts about the displayed winner\<close>

lemma current_winner_first:
  "current_winner g df = (case filter (\<lambda>r. Game r = g) df of [] \<Rightarrow> '''' | r # _ \<Rightarrow> Winner r)"
  by (cases "filter (\<lambda>r. Game r = g) df") (simp_all add: current_winner_def)

lemma filter_Game_set_Winner:
  "filter (\<lambda>r. Game r = g) (map (\<lambda>r. if Game r = g then r\<lparr>Winner := w\<rparr> else r) df) =
     map (\<lambda>r. r\<lparr>Winner := w\<rparr>) (filter (\<lambda>r. Game r = g) df)"
  by (induction df) auto

lemma current_winner_after_save:
  assumes "\<exists>r \<in> set (load_picks st). Game r = g"
  shows "current_winner g (load_picks (save_winner g w st)) = w"
proof -
  from assms have "filter (\<lambda>r. Game r = g) (load_picks st) \<noteq> []"
    by (auto simp: filter_empty_conv)
  then obtain r rs where "filter (\<lambda>r. Game r = g) (load_picks st) = r # rs"
    by (cases "filter (\<lambda>r. Game r = g) (load_picks st)") auto
  then show ?thesis
    by (simp add: current_winner_first load_save_winner filter_Game_set_Winner)
qed

lemma save_winner_same_table:
  assumes "\<forall>r \<in> set (load_picks st). Game r = g \<longrightarrow> Winner r = w"
  shows "load_picks (save_winner g w st) = load_picks st"
proof -
  have "map (\<lambda>r. if Game r = g then r\<lparr>Winner := w\<rparr> else r) (load_picks st) = load_picks st"
    using assms by (intro map_idI) auto
  then show ?thesis by (simp add: load_save_winner)
qed

section \<open>One more correct row\<close>




section \<open>The writers keep the rows unique\<close>

lemma unique_rows_preserved:
  "unique_rows (load_picks st) \<Longrightarrow>
     unique_rows (load_picks (save_pick u w d g p st)) \<and>
     unique_rows (load_picks (save_winner g' x st)) \<and>
     length (load_picks (save_winner g' x st)) = length (load_picks st)"
proof (intro conjI)
  assume uq: "unique_rows (load_picks st)"
  show "unique_rows (load_picks (save_pick u w d g p st))"
  proof (cases "list_ex (exists_mask u w g) (load_picks st)")
    case True
    show ?thesis
      unfolding unique_rows_def load_save_pick_found [OF True] map_key_set_Pick
      using uq by (simp only: unique_rows_def)
  next
    case False
    then have "(u, w, g) \<notin> key_of ` set (load_picks st)"
      by (auto simp: list_ex_iff exists_mask_key)
    with uq False show ?thesis
      by (simp add: load_save_pick_new unique_rows_def key_of_def)
  qed
  show "unique_rows (load_picks (save_winner g' x st))"
    unfolding unique_rows_def load_save_winner map_key_set_Winner
    using uq by (simp only: unique_rows_def)
  show "length (load_picks (save_winner g' x st)) = length (load_picks st)"
    by (simp add: load_save_winner)
qed

section \<open>Claims\<close>

text \<open>
  C2. \<^verbatim>\<open>save_winner(g, w)\<close> keeps the number and order of rows, sets \<open>Winner\<close> to \<open>w\<close> on
  every row whose \<open>Game\<close> is \<open>g\<close>, whatever its \<open>User\<close> and \<open>Week\<close>, and leaves every other
  row as it was. In particular two rows of different weeks that share the game name \<open>g\<close>
  both receive the winner.
\<close>

theorem save_winner_every_row:
  "length (load_picks (save_winner g w st)) = length (load_picks st) \<and>
   (\<forall>i < length (load_picks st).
      (Game (load_picks st ! i) = g \<longrightarrow>
         load_picks (save_winner g w st) ! i = (load_picks st ! i)\<lparr>Winner := w\<rparr>) \<and>
      (Game (load_picks st ! i) \<noteq> g \<longrightarrow>
         load_picks (save_winner g w st) ! i = load_picks st ! i)) \<and>
   (\<forall>i < length (load_picks st). \<forall>j < length (load_picks st).
      Game (load_picks st ! i) = g \<and> Game (load_picks st ! j) = g \<and>
      Week (load_picks st ! i) \<noteq> Week (load_picks st ! j) \<longrightarrow>
        Winner (load_picks (save_winner g w st) ! i) = w \<and>
        Winner (load_picks (save_winner g w st) ! j) = w)"
  by (simp add: load_save_winner)

theorem save_winner_every_row_witness:
  "Game (load_picks two_weeks_store ! 0) = ''Game1'' \<and>
   Game (load_picks two_weeks_store ! 1) = ''Game1'' \<and>
   Week (load_picks two_weeks_store ! 0) \<noteq> Week (load_picks two_weeks_store ! 1) \<and>
   Winner (load_picks (save_winner ''Game1'' ''Bruins'' two_weeks_store) ! 0) = ''Bruins'' \<and>
   Winner (load_picks (save_winner ''Game1'' ''Bruins'' two_weeks_store) ! 1) = ''Bruins'' \<and>
   load_picks (save_winner ''Game1'' ''Bruins'' two_weeks_store) ! 2 =
     load_picks two_weeks_store ! 2"
  using save_winner_every_row [of "''Game1''" "''Bruins''" two_weeks_store]
  by (simp add: two_weeks_store_def load_picks_def)

text \<open>
  C1, as the code has it. \<^verbatim>\<open>save_pick\<close> is an upsert keyed on (User, Week, Game): when no
  row matches the key, the row \<open>{User, Week, Date, Game, Pick: pick, Winner: ""}\<close> is
  appended; when rows match, the \<open>Pick\<close> of every matching row is overwritten and nothing
  is appended. After two calls for the same key every row of that key holds the later
  pick, and when the table had at most one row for the key before, exactly one row of
  that key is left.
\<close>

theorem save_pick_upsert:
  "(\<not> (\<exists>r \<in> set (load_picks st). exists_mask u w g r) \<longrightarrow>
      load_picks (save_pick u w d g p st) =
        load_picks st @ [\<lparr>User = u, Week = w, Date = d, Game = g, Pick = p, Winner = ''''\<rparr>]) \<and>
   ((\<exists>r \<in> set (load_picks st). exists_mask u w g r) \<longrightarrow>
      load_picks (save_pick u w d g p st) =
        map (\<lambda>r. if exists_mask u w g r then r\<lparr>Pick := p\<rparr> else r) (load_picks st)) \<and>
   (\<forall>r \<in> set (load_picks (save_pick u w d' g p' (save_pick u w d g p st))).
      exists_mask u w g r \<longrightarrow> Pick r = p') \<and>
   (length (filter (exists_mask u w g) (load_picks st)) \<le> 1 \<longrightarrow>
      (\<exists>r. filter (exists_mask u w g)
              (load_picks (save_pick u w d' g p' (save_pick u w d g p st))) = [r] \<and>
           Pick r = p'))"
proof (intro conjI impI)
  assume "\<not> (\<exists>r \<in> set (load_picks st). exists_mask u w g r)"
  then show "load_picks (save_pick u w d g p st) =
        load_picks st @ [\<lparr>User = u, Week = w, Date = d, Game = g, Pick = p, Winner = ''''\<rparr>]"
    by (simp add: load_save_pick_new list_ex_iff)
next
  assume "\<exists>r \<in> set (load_picks st). exists_mask u w g r"
  then show "load_picks (save_pick u w d g p st) =
        map (\<lambda>r. if exists_mask u w g r then r\<lparr>Pick := p\<rparr> else r) (load_picks st)"
    by (simp add: load_save_pick_found list_ex_iff)
next
  let ?st1 = "save_pick u w d g p st"
  have two: "filter (exists_mask u w g) (load_picks (save_pick u w d' g p' ?st1)) =
        map (\<lambda>r. r\<lparr>Pick := p'\<rparr>) (filter (exists_mask u w g) (load_picks ?st1))"
    by (simp add: filter_mask_save_pick [of u w g d' p' ?st1] list_ex_save_pick)
  show "\<forall>r \<in> set (load_picks (save_pick u w d' g p' ?st1)). exists_mask u w g r \<longrightarrow> Pick r = p'"
  proof (intro ballI impI)
    fix r assume "r \<in> set (load_picks (save_pick u w d' g p' ?st1))" "exists_mask u w g r"
    then have "r \<in> set (filter (exists_mask u w g) (load_picks (save_pick u w d' g p' ?st1)))"
      by simp
    then show "Pick r = p'" unfolding two by auto
  qed
  assume le: "length (filter (exists_mask u w g) (load_picks st)) \<le> 1"
  have "length (filter (exists_mask u w g) (load_picks ?st1)) = 1"
  proof (cases "list_ex (exists_mask u w g) (load_picks st)")
    case True
    then have "filter (exists_mask u w g) (load_picks st) \<noteq> []"
      by (auto simp: list_ex_iff filter_empty_conv)
    with le have "length (filter (exists_mask u w g) (load_picks st)) = 1"
      by (cases "filter (exists_mask u w g) (load_picks st)") auto
    with True show ?thesis by (simp add: filter_mask_save_pick)
  next
    case False
    then show ?thesis by (simp add: filter_mask_save_pick)
  qed
  then obtain r0 where "filter (exists_mask u w g) (load_picks ?st1) = [r0]"
    by (auto simp: length_Suc_conv)
  then show "\<exists>r. filter (exists_mask u w g)
              (load_picks (save_pick u w d' g p' ?st1)) = [r] \<and> Pick r = p'"
    unfolding two by simp
qed

text \<open>
  The theorem at work: a first pick for a new key is appended, and a second call for the
  key of the first row of \<open>two_weeks_store\<close> leaves one row for it, with the later pick.
\<close>

theorem save_pick_upsert_witness:
  "\<not> (\<exists>r \<in> set (load_picks two_weeks_store). exists_mask ''Em'' ''2'' ''Game2'' r) \<and>
   load_picks (save_pick ''Em'' ''2'' ''2024-01-16'' ''Game2'' ''Flames'' two_weeks_store) =
     load_picks two_weeks_store @
       [\<lparr>User = ''Em'', Week = ''2'', Date = ''2024-01-16'', Game = ''Game2'',
         Pick = ''Flames'', Winner = ''''\<rparr>] \<and>
   (\<exists>r \<in> set (load_picks two_weeks_store). exists_mask ''Em'' ''1'' ''Game1'' r) \<and>
   length (filter (exists_mask ''Em'' ''1'' ''Game1'') (load_picks two_weeks_store)) \<le> 1 \<and>
   (\<exists>r. filter (exists_mask ''Em'' ''1'' ''Game1'')
          (load_picks (save_pick ''Em'' ''1'' ''2024-01-08'' ''Game1'' ''Leafs''
             (save_pick ''Em'' ''1'' ''2024-01-08'' ''Game1'' ''Bruins'' two_weeks_store))) = [r] \<and>
        Pick r = ''Leafs'')"
  using save_pick_upsert [of two_weeks_store "''Em''" "''2''" "''Game2''" "''2024-01-16''"
      "''Flames''" "''2024-01-16''" "''Flames''"]
    save_pick_upsert [of two_weeks_store "''Em''" "''1''" "''Game1''" "''2024-01-08''"
      "''Bruins''" "''2024-01-08''" "''Leafs''"]
  by (simp add: two_weeks_store_def load_picks_def exists_mask_def)

text \<open>
  C1 as stated fails on a table that already holds two rows for the key: both rows get
  the pick and both stay.
\<close>

theorem save_pick_duplicate_rows_counterexample:
  "length (filter (exists_mask ''Em'' ''1'' ''Game1'')
     (load_picks (save_pick ''Em'' ''1'' ''2024-01-08'' ''Game1'' ''Leafs''
        (save_pick ''Em'' ''1'' ''2024-01-08'' ''Game1'' ''Bruins'' duplicate_store)))) = 2"
  by (simp add: duplicate_store_def save_pick_def sheet_update_def load_picks_def
      exists_mask_def Let_def)

text \<open>
  C7. When the table has at most one row for each (User, Week, Game), so has the table
  that \<^verbatim>\<open>save_pick\<close> writes, whatever its arguments, and so has the table that
  \<^verbatim>\<open>save_winner\<close> writes, which has as many rows as before. The witness states the
  invariant in its computable form \<open>unique_rows\<close>.
\<close>

theorem save_pick_preserves_unique:
  "(\<forall>u' w' g'. length (filter (exists_mask u' w' g') (load_picks st)) \<le> 1) \<Longrightarrow>
     (\<forall>u' w' g'. length (filter (exists_mask u' w' g')
                          (load_picks (save_pick u w d g p st))) \<le> 1) \<and>
     (\<forall>u' w' g'. length (filter (exists_mask u' w' g')
                          (load_picks (save_winner gm x st))) \<le> 1) \<and>
     length (load_picks (save_winner gm x st)) = length (load_picks st)"
  unfolding unique_rows_iff [symmetric] by (rule unique_rows_preserved)

theorem save_pick_preserves_unique_witness:
  "unique_rows (load_picks two_weeks_store) \<and>
   unique_rows (load_picks (save_pick ''Em'' ''2'' ''2024-01-15'' ''Game1'' ''Leafs''
      two_weeks_store)) \<and>
   unique_rows (load_picks (save_winner ''Game1'' ''Leafs'' two_weeks_store)) \<and>
   length (load_picks (save_winner ''Game1'' ''Leafs'' two_weeks_store)) = 3"
proof -
  have h: "unique_rows (load_picks two_weeks_store)"
    by (simp add: unique_rows_def key_of_def two_weeks_store_def load_picks_def)
  have h': "\<forall>u' w' g'. length (filter (exists_mask u' w' g')
      (load_picks two_weeks_store)) \<le> 1"
    using h unfolding unique_rows_iff .
  have n: "length (load_picks two_weeks_store) = 3"
    by (simp add: two_weeks_store_def load_picks_def)
  have "unique_rows (load_picks (save_pick ''Em'' ''2'' ''2024-01-15'' ''Game1'' ''Leafs''
          two_weeks_store)) \<and>
        unique_rows (load_picks (save_winner ''Game1'' ''Leafs'' two_weeks_store)) \<and>
        length (load_picks (save_winner ''Game1'' ''Leafs'' two_weeks_store)) =
          length (load_picks two_weeks_store)"
    unfolding unique_rows_iff
    by (rule save_pick_preserves_unique [OF h'])
  with h n show ?thesis by simp
qed

text \<open>
  C8. When the table holds a row for the key, \<^verbatim>\<open>save_pick\<close> writes back a table of the
  same length in which each row stands where it stood: a matching row differs from its
  old value in \<open>Pick\<close> only, so its \<open>Date\<close> and \<open>Winner\<close> are kept and the \<open>date\<close> argument
  is not used, and every other row is unchanged.
\<close>

theorem save_pick_frame:
  "(\<exists>r \<in> set (load_picks st). exists_mask u w g r) \<Longrightarrow>
   length (load_picks (save_pick u w d g p st)) = length (load_picks st) \<and>
   (\<forall>i < length (load_picks st).
      (exists_mask u w g (load_picks st ! i) \<longrightarrow>
         load_picks (save_pick u w d g p st) ! i = (load_picks st ! i)\<lparr>Pick := p\<rparr> \<and>
         Date (load_picks (save_pick u w d g p st) ! i) = Date (load_picks st ! i) \<and>
         Winner (load_picks (save_pick u w d g p st) ! i) = Winner (load_picks st ! i)) \<and>
      (\<not> exists_mask u w g (load_picks st ! i) \<longrightarrow>
         load_picks (save_pick u w d g p st) ! i = load_picks st ! i))"
  by (simp add: load_save_pick_found list_ex_iff)

theorem save_pick_frame_witness:
  "(\<exists>r \<in> set (load_picks two_weeks_store). exists_mask ''Ma'' ''2'' ''Game2'' r) \<and>
   load_picks (save_pick ''Ma'' ''2'' ''2030-12-31'' ''Game2'' ''Flames'' two_weeks_store) =
     [\<lparr>User = ''Em'', Week = ''1'', Date = ''2024-01-08'', Game = ''Game1'',
       Pick = ''Bruins'', Winner = ''''\<rparr>,
      \<lparr>User = ''Ma'', Week = ''2'', Date = ''2024-01-15'', Game = ''Game1'',
       Pick = ''Leafs'', Winner = ''''\<rparr>,
      \<lparr>User = ''Ma'', Week = ''2'', Date = ''2024-01-16'', Game = ''Game2'',
       Pick = ''Flames'', Winner = ''Flames''\<rparr>]"
proof -
  have h: "\<exists>r \<in> set (load_picks two_weeks_store). exists_mask ''Ma'' ''2'' ''Game2'' r"
    by (simp add: two_weeks_store_def load_picks_def exists_mask_def)
  have n: "length (load_picks two_weeks_store) = 3"
    by (simp add: two_weeks_store_def load_picks_def)
  have "length (load_picks (save_pick ''Ma'' ''2'' ''2030-12-31'' ''Game2'' ''Flames''
          two_weeks_store)) = 3 \<and>
        (\<forall>i < 3. load_picks (save_pick ''Ma'' ''2'' ''2030-12-31'' ''Game2'' ''Flames''
            two_weeks_store) ! i =
          [\<lparr>User = ''Em'', Week = ''1'', Date = ''2024-01-08'', Game = ''Game1'',
            Pick = ''Bruins'', Winner = ''''\<rparr>,
           \<lparr>User = ''Ma'', Week = ''2'', Date = ''2024-01-15'', Game = ''Game1'',
            Pick = ''Leafs'', Winner = ''''\<rparr>,
           \<lparr>User = ''Ma'', Week = ''2'', Date = ''2024-01-16'', Game = ''Game2'',
            Pick = ''Flames'', Winner = ''Flames''\<rparr>] ! i)"
    using save_pick_frame [OF h, of "''2030-12-31''" "''Flames''"] n
    by (simp add: two_weeks_store_def load_picks_def exists_mask_def
        less_Suc_eq numeral_3_eq_3)
  with h show ?thesis
    by (simp add: list_eq_iff_nth_eq)
qed

text \<open>
  C3, as the code has it. When some schedule row has a parsed \<open>WeekStartDate\<close> on or
  before today, the current week is the \<open>Week\<close> of a schedule row whose \<open>WeekStartDate\<close> is
  the latest one on or before today, and no message is shown. When no row has, the
  current week is \<open>TBD\<close>, the message is shown and nothing is raised; the week's schedule
  is then made of the schedule rows whose \<open>Week\<close> is \<open>TBD\<close>, so it is empty, and the
  status \<open>Open\<close>, when no schedule row is named \<open>TBD\<close>.
\<close>

theorem current_week_resolution:
  "((\<exists>r \<in> set sched. \<exists>d. WeekStartDate r = Some d \<and> d \<le> today) \<longrightarrow>
      (\<exists>r \<in> set sched. \<exists>d. current_week today sched = Inr (sched_Week r, []) \<and>
           WeekStartDate r = Some d \<and> d \<le> today \<and>
           (\<forall>r' \<in> set sched. \<forall>d'. WeekStartDate r' = Some d' \<and> d' \<le> today \<longrightarrow> d' \<le> d))) \<and>
   (\<not> (\<exists>r \<in> set sched. \<exists>d. WeekStartDate r = Some d \<and> d \<le> today) \<longrightarrow>
      current_week today sched = Inr (''TBD'', [no_active_week]) \<and>
      week_schedule ''TBD'' sched = filter (\<lambda>r. sched_Week r = ''TBD'') sched \<and>
      ((\<forall>r \<in> set sched. sched_Week r \<noteq> ''TBD'') \<longrightarrow>
         resolve_week today sched = Inr (''TBD'', [], ''Open'', [no_active_week])))"
proof (intro conjI impI)
  assume "\<exists>r \<in> set sched. \<exists>d. WeekStartDate r = Some d \<and> d \<le> today"
  then show "\<exists>r \<in> set sched. \<exists>d. current_week today sched = Inr (sched_Week r, []) \<and>
           WeekStartDate r = Some d \<and> d \<le> today \<and>
           (\<forall>r' \<in> set sched. \<forall>d'. WeekStartDate r' = Some d' \<and> d' \<le> today \<longrightarrow> d' \<le> d)"
    by (rule current_week_found)
next
  assume n: "\<not> (\<exists>r \<in> set sched. \<exists>d. WeekStartDate r = Some d \<and> d \<le> today)"
  then show cw: "current_week today sched = Inr (''TBD'', [no_active_week])"
    by (rule current_week_none)
  show "week_schedule ''TBD'' sched = filter (\<lambda>r. sched_Week r = ''TBD'') sched"
    by (simp add: week_schedule_def)
  assume "\<forall>r \<in> set sched. sched_Week r \<noteq> ''TBD''"
  then have "week_schedule ''TBD'' sched = []"
    by (simp add: week_schedule_def filter_empty_conv)
  with cw show "resolve_week today sched = Inr (''TBD'', [], ''Open'', [no_active_week])"
    by (simp add: resolve_week_def week_status_def)
qed

theorem current_week_resolution_witness:
  "(\<exists>r \<in> set three_weeks. \<exists>d. WeekStartDate r = Some d \<and> d \<le> date_ordinal 2024 1 16) \<and>
   current_week (date_ordinal 2024 1 16) three_weeks = Inr (''2'', []) \<and>
   \<not> (\<exists>r \<in> set three_weeks. \<exists>d. WeekStartDate r = Some d \<and> d \<le> date_ordinal 2024 1 1) \<and>
   ''TBD'' \<notin> set (map sched_Week three_weeks) \<and>
   resolve_week (date_ordinal 2024 1 1) three_weeks =
     Inr (''TBD'', [], ''Open'', [no_active_week])"
  using current_week_resolution [of three_weeks "date_ordinal 2024 1 16"]
    current_week_resolution [of three_weeks "date_ordinal 2024 1 1"]
  by (simp add: three_weeks_def date_ordinal_def days_before_year_def days_before_month_def
      is_leap_def current_week_def past_weeks_def series_max_def Let_def)

text \<open>
  C3 as stated fails on a schedule whose only week, still to come, is itself named
  \<open>TBD\<close>: the sentinel selects that week's rows.
\<close>

theorem tbd_week_schedule_counterexample:
  "past_weeks (date_ordinal 2024 1 16) tbd_schedule = [] \<and>
   current_week (date_ordinal 2024 1 16) tbd_schedule = Inr (''TBD'', [no_active_week]) \<and>
   week_schedule ''TBD'' tbd_schedule \<noteq> []"
  by (simp add: tbd_schedule_def date_ordinal_def days_before_year_def days_before_month_def
      is_leap_def current_week_def past_weeks_def week_schedule_def)

text \<open>
  C4. Once the current week is resolved and its schedule has a first row, whose parsed
  \<open>WeekStartDate\<close> is \<open>week_start\<close>, the status is \<open>Open\<close> exactly when
  \<open>today < week_start + 7\<close> and \<open>Closed\<close> otherwise; with no schedule row for the current
  week the status is \<open>Open\<close>. For the week starts 2024-01-07, 2024-01-14 and 2024-01-21
  and today 2024-01-16 the resolved week is the one that starts on 2024-01-14, shown
  \<open>Open\<close>, and the rule on that week's schedule gives \<open>Open\<close> on every day before
  2024-01-21 and \<open>Closed\<close> from that day on.
\<close>

theorem week_status_rule:
  "(current_week today sched = Inr (cw, msgs) \<and> week_schedule cw sched = r # rest \<and>
      WeekStartDate r = Some week_start \<longrightarrow>
        resolve_week today sched =
          Inr (cw, r # rest, if today < week_start + 7 then ''Open'' else ''Closed'', msgs)) \<and>
   (current_week today sched = Inr (cw, msgs) \<and> week_schedule cw sched = [] \<longrightarrow>
        resolve_week today sched = Inr (cw, [], ''Open'', msgs)) \<and>
   (WeekStartDate r = Some week_start \<longrightarrow>
      (week_status today (r # rest) = Inr ''Open'' \<longleftrightarrow> today < week_start + 7) \<and>
      (week_status today (r # rest) = Inr ''Closed'' \<longleftrightarrow> \<not> today < week_start + 7)) \<and>
   week_status today [] = Inr ''Open'' \<and>
   resolve_week (date_ordinal 2024 1 16) three_weeks =
     Inr (''2'', [three_weeks ! 1], ''Open'', []) \<and>
   WeekStartDate (three_weeks ! 1) = Some (date_ordinal 2024 1 14) \<and>
   week_status today (week_schedule ''2'' three_weeks) =
     Inr (if today < date_ordinal 2024 1 21 then ''Open'' else ''Closed'')"
proof (intro conjI impI)
  show "resolve_week (date_ordinal 2024 1 16) three_weeks =
     Inr (''2'', [three_weeks ! 1], ''Open'', [])"
    by (simp add: three_weeks_def date_ordinal_def days_before_year_def days_before_month_def
      is_leap_def current_week_def past_weeks_def series_max_def Let_def resolve_week_def
      week_schedule_def week_status_def)
  show "week_status today (week_schedule ''2'' three_weeks) =
     Inr (if today < date_ordinal 2024 1 21 then ''Open'' else ''Closed'')"
    by (simp add: three_weeks_def date_ordinal_def days_before_year_def days_before_month_def
      is_leap_def week_schedule_def week_status_def)
qed (auto simp: resolve_week_def week_status_def three_weeks_def)

theorem week_status_rule_witness:
  "current_week (date_ordinal 2024 1 28) three_weeks = Inr (''3'', []) \<and>
   week_schedule ''3'' three_weeks = [three_weeks ! 2] \<and>
   WeekStartDate (three_weeks ! 2) = Some (date_ordinal 2024 1 21) \<and>
   \<not> date_ordinal 2024 1 28 < date_ordinal 2024 1 21 + 7 \<and>
   resolve_week (date_ordinal 2024 1 28) three_weeks =
     Inr (''3'', [three_weeks ! 2], ''Closed'', []) \<and>
   current_week (date_ordinal 2024 1 1) three_weeks = Inr (''TBD'', [no_active_week]) \<and>
   week_schedule ''TBD'' three_weeks = [] \<and>
   resolve_week (date_ordinal 2024 1 1) three_weeks =
     Inr (''TBD'', [], ''Open'', [no_active_week])"
proof -
  have cw: "current_week (date_ordinal 2024 1 28) three_weeks = Inr (''3'', [])"
    by (simp add: three_weeks_def date_ordinal_def days_before_year_def days_before_month_def
      is_leap_def current_week_def past_weeks_def series_max_def Let_def)
  have ws: "week_schedule ''3'' three_weeks = three_weeks ! 2 # []"
    by (simp add: three_weeks_def week_schedule_def)
  have d: "WeekStartDate (three_weeks ! 2) = Some (date_ordinal 2024 1 21)"
    by (simp add: three_weeks_def)
  have cw0: "current_week (date_ordinal 2024 1 1) three_weeks = Inr (''TBD'', [no_active_week])"
    by (simp add: three_weeks_def date_ordinal_def days_before_year_def days_before_month_def
      is_leap_def current_week_def past_weeks_def)
  have ws0: "week_schedule ''TBD'' three_weeks = []"
    by (simp add: three_weeks_def week_schedule_def)
  have lt: "\<not> date_ordinal 2024 1 28 < date_ordinal 2024 1 21 + 7"
    by (simp add: date_ordinal_def days_before_year_def days_before_month_def is_leap_def)
  show ?thesis
    using week_status_rule [of "date_ordinal 2024 1 28" three_weeks "''3''" "[]"
        "three_weeks ! 2" "[]" "date_ordinal 2024 1 21"]
      week_status_rule [of "date_ordinal 2024 1 1" three_weeks "''TBD''" "[no_active_week]"]
      cw ws d cw0 ws0 lt
    by simp
qed





text \<open>
  C9. Applying \<^verbatim>\<open>save_winner(g, w)\<close> to a table in which every row of game \<open>g\<close> already
  has the winner \<open>w\<close> writes back an equal table, so a second call with the same winner
  stores what the first stored. The page fires \<^verbatim>\<open>save_winner\<close> exactly when the selected
  winner differs from the displayed one and is not empty; otherwise the sheet is left as
  it is, with no write. Once a winner is saved for a game that has rows, it is the
  displayed winner, and selecting it again fires nothing.
\<close>

theorem save_winner_idempotent:
  "((\<forall>r \<in> set (load_picks st). Game r = g \<longrightarrow> Winner r = w) \<longrightarrow>
      load_picks (save_winner g w st) = load_picks st) \<and>
   load_picks (save_winner g w (save_winner g w st)) = load_picks (save_winner g w st) \<and>
   (winner = current_winner g df_all \<or> winner = '''' \<longrightarrow>
      record_winner g winner df_all st = st) \<and>
   (winner \<noteq> current_winner g df_all \<and> winner \<noteq> '''' \<longrightarrow>
      record_winner g winner df_all st = save_winner g winner st) \<and>
   ((\<exists>r \<in> set (load_picks st). Game r = g) \<longrightarrow>
      current_winner g (load_picks (save_winner g w st)) = w \<and>
      record_winner g w (load_picks (save_winner g w st)) (save_winner g w st) =
        save_winner g w st)"
proof (intro conjI impI)
  assume "\<forall>r \<in> set (load_picks st). Game r = g \<longrightarrow> Winner r = w"
  then show "load_picks (save_winner g w st) = load_picks st"
    by (rule save_winner_same_table)
next
  have "\<forall>r \<in> set (load_picks (save_winner g w st)). Game r = g \<longrightarrow> Winner r = w"
    unfolding load_save_winner
  proof (intro ballI impI)
    fix r
    assume "r \<in> set (map (\<lambda>r. if Game r = g then r\<lparr>Winner := w\<rparr> else r) (load_picks st))"
      and g: "Game r = g"
    then obtain r0 where r: "r = (if Game r0 = g then r0\<lparr>Winner := w\<rparr> else r0)"
      by (auto simp only: set_map image_iff)
    show "Winner r = w"
    proof (cases "Game r0 = g")
      case True
      with r show ?thesis by simp
    next
      case False
      with r g show ?thesis by simp
    qed
  qed
  then show "load_picks (save_winner g w (save_winner g w st)) = load_picks (save_winner g w st)"
    by (rule save_winner_same_table)
next
  assume "winner = current_winner g df_all \<or> winner = ''''"
  then have "\<not> (winner \<noteq> current_winner g df_all \<and> winner \<noteq> '''')"
    by blast
  then show "record_winner g winner df_all st = st"
    unfolding record_winner_def by (rule if_not_P)
next
  assume "winner \<noteq> current_winner g df_all \<and> winner \<noteq> ''''"
  then show "record_winner g winner df_all st = save_winner g winner st"
    by (simp add: record_winner_def)
next
  assume ex: "\<exists>r \<in> set (load_picks st). Game r = g"
  then show cw: "current_winner g (load_picks (save_winner g w st)) = w"
    by (rule current_winner_after_save)
  then show "record_winner g w (load_picks (save_winner g w st)) (save_winner g w st) =
        save_winner g w st"
    by (simp add: record_winner_def)
qed

theorem save_winner_idempotent_witness:
  "map Winner (filter (\<lambda>r. Game r = ''Game2'') (load_picks two_weeks_store)) = [''Flames''] \<and>
   load_picks (save_winner ''Game2'' ''Flames'' two_weeks_store) = load_picks two_weeks_store \<and>
   ''Flames'' = current_winner ''Game2'' (load_picks two_weeks_store) \<and>
   record_winner ''Game2'' ''Flames'' (load_picks two_weeks_store) two_weeks_store =
     two_weeks_store \<and>
   record_winner ''Game1'' '''' (load_picks two_weeks_store) two_weeks_store = two_weeks_store \<and>
   ''Leafs'' \<noteq> current_winner ''Game1'' (load_picks two_weeks_store) \<and>
   record_winner ''Game1'' ''Leafs'' (load_picks two_weeks_store) two_weeks_store =
     save_winner ''Game1'' ''Leafs'' two_weeks_store \<and>
   (\<exists>r \<in> set (load_picks two_weeks_store). Game r = ''Game1'') \<and>
   current_winner ''Game1'' (load_picks (save_winner ''Game1'' ''Leafs'' two_weeks_store)) =
     ''Leafs''"
proof -
  have a: "\<forall>r \<in> set (load_picks two_weeks_store). Game r = ''Game2'' \<longrightarrow> Winner r = ''Flames''"
    by (simp add: two_weeks_store_def load_picks_def)
  have b: "current_winner ''Game2'' (load_picks two_weeks_store) = ''Flames''"
    by (simp add: two_weeks_store_def load_picks_def current_winner_def)
  have c: "current_winner ''Game1'' (load_picks two_weeks_store) = ''''"
    by (simp add: two_weeks_store_def load_picks_def current_winner_def)
  have d: "\<exists>r \<in> set (load_picks two_weeks_store). Game r = ''Game1''"
    by (simp add: two_weeks_store_def load_picks_def)
  have e: "map Winner (filter (\<lambda>r. Game r = ''Game2'') (load_picks two_weeks_store)) = [''Flames'']"
    by (simp add: two_weeks_store_def load_picks_def)
  show ?thesis
    using save_winner_idempotent [of two_weeks_store "''Game2''" "''Flames''" "''Flames''"
        "load_picks two_weeks_store"]
      save_winner_idempotent [of two_weeks_store "''Game1''" "''Leafs''" "''''"
        "load_picks two_weeks_store"]
      save_winner_idempotent [of two_weeks_store "''Game1''" "''Leafs''" "''Leafs''"
        "load_picks two_weeks_store"]
      a b c d e
    by simp
qed



end
